theory Spec2Isabelle
  imports Main "HOL-Library.Word"
begin

section \<open>The PrivateLottery contract\<close>

text \<open>
  A shallow embedding of the Solidity contract \<^verbatim>\<open>PrivateLottery\<close>
  (\<^verbatim>\<open>pragma solidity ^0.8.24\<close>). Unsigned integers are machine words of their
  width. Arithmetic of this compiler version is checked: an overflow or underflow
  reverts with \<^verbatim>\<open>Panic(0x11)\<close>, an array read out of range with
  \<^verbatim>\<open>Panic(0x32)\<close>; both are branches of the model. Gas is not modelled, except that the depth of nested
  calls is bounded.
\<close>

subsection \<open>Values\<close>

type_synonym address = "160 word"
type_synonym uint256 = "256 word"
type_synonym uint32 = "32 word"
type_synonym bytes32 = "256 word"
type_synonym bytes = "8 word list"

text \<open>\<^verbatim>\<open>type(uint256).max\<close>, as a natural number.\<close>

definition uint256_max :: nat where
  "uint256_max = 2 ^ 256 - 1"

text \<open>The FHE library declares an encrypted integer as a 32-byte handle.\<close>

type_synonym euint32 = bytes32
type_synonym externalEuint32 = bytes32

record LotteryEntry =
  participant :: address
  encryptedNumber :: euint32
  timestamp :: uint256

record Winner =
  winner :: address
  prize :: uint256
  winningNumber :: uint32
  timestamp :: uint256

datatype event =
    LotteryEntered address uint256 uint256
  | WinnerDrawn address uint256 uint32 uint256
  | LotteryReset uint256
  | LotteryStatusChanged bool

datatype error =
    Revert string
  | Panic nat
  | LibraryRevert
  | Unfunded

text \<open>
  What a transaction leaves on the chain besides storage: the events it emitted and
  the value transfers the contract made, in order.
\<close>

datatype action =
    Emitted event
  | Sent address uint256

subsection \<open>State\<close>

text \<open>
  The first nine fields are the storage variables of the contract. A Solidity mapping
  is total, every key starting at zero. \<open>balances\<close> is the ether balance of every
  account of the chain (\<^verbatim>\<open>address(this).balance\<close> is the contract's own),
  \<open>trace\<close> the actions so far.
\<close>

record world =
  owner :: address
  entryFee :: uint256
  prizePool :: uint256
  isActive :: bool
  roundNumber :: uint256
  entries :: "LotteryEntry list"
  winners :: "Winner list"
  participantEntries :: "address \<Rightarrow> uint256"
  hasWon :: "address \<Rightarrow> bool"
  balances :: "address \<Rightarrow> uint256"
  trace :: "action list"

text \<open>The context of one call: \<^verbatim>\<open>msg\<close> and \<^verbatim>\<open>block\<close>.\<close>

record env =
  msg_sender :: address
  msg_value :: uint256
  block_timestamp :: uint256
  block_number :: uint256
  blockhash :: "uint256 \<Rightarrow> bytes32"

text \<open>
  The functions of the contract that can be called from outside. The getters that the
  compiler generates for the public state variables only read storage and are left out.
\<close>

datatype call =
    EnterLottery externalEuint32 bytes
  | DrawWinner
  | SetLotteryActive bool
  | SetEntryFee uint256
  | EmergencyWithdraw
  | Receive
  | Fallback bytes
  | GetPrizePool
  | GetEntryFee
  | GetEntryCount
  | GetCurrentRound
  | GetLastWinner
  | GetAllWinners
  | IsLotteryActive
  | GetParticipantEntries address
  | HasParticipantWon address

text \<open>
  What the contract uses and the repository does not contain, taken as parameters:
  \<^item> \<open>this\<close>: the address the contract is deployed at;
  \<^item> \<open>keccak256_packed\<close>: \<^verbatim>\<open>keccak256(abi.encodePacked(...))\<close> of the five values
    that \<^verbatim>\<open>drawWinner\<close> hashes;
  \<^item> \<open>FHE_fromExternal\<close>: the library's check of an input proof for a caller, \<open>None\<close>
    when the library reverts;
  \<^item> \<open>FHE_allow\<close>: the library's permission grant, \<open>False\<close> when it reverts
    (\<^verbatim>\<open>FHE.allowThis(x)\<close> is \<^verbatim>\<open>FHE.allow(x, address(this))\<close>);
  \<^item> \<open>accepts\<close>: whether the code at an address accepts a plain transfer of an amount
    (when it does not, the transfer and all that the code did are undone);
  \<^item> \<open>receiver\<close>: the calls into the lottery that the code at an address makes while it
    receives a plain transfer of an amount, each with the value it carries. The code sees
    the world as it is at that moment, the transfer made. The contract forwards all gas
    and has no guard against re-entry, so every function is open to these calls.
\<close>

record host =
  this :: address
  keccak256_packed :: "uint256 \<Rightarrow> uint256 \<Rightarrow> bytes32 \<Rightarrow> uint256 \<Rightarrow> address \<Rightarrow> uint256"
  FHE_fromExternal :: "address \<Rightarrow> externalEuint32 \<Rightarrow> bytes \<Rightarrow> euint32 option"
  FHE_allow :: "euint32 \<Rightarrow> address \<Rightarrow> bool"
  accepts :: "address \<Rightarrow> uint256 \<Rightarrow> bool"
  receiver :: "address \<Rightarrow> uint256 \<Rightarrow> world \<Rightarrow> (call \<times> uint256) list"

text \<open>
  What the code of a recipient does to the world while it holds control: it is given
  the context of the call that pays it, its own address and the amount.
\<close>

type_synonym reentry = "env \<Rightarrow> address \<Rightarrow> uint256 \<Rightarrow> world \<Rightarrow> world"

text \<open>A recipient that makes no call into the lottery, whatever it receives.\<close>

definition silent :: "host \<Rightarrow> address \<Rightarrow> bool" where
  "silent h a = (\<forall>v w. receiver h a v w = [])"

subsection \<open>Moving ether\<close>

definition move :: "(address \<Rightarrow> uint256) \<Rightarrow> address \<Rightarrow> address \<Rightarrow> uint256 \<Rightarrow> (address \<Rightarrow> uint256)" where
  "move bal src dst v = (let b1 = bal(src := bal src - v) in b1(dst := b1 dst + v))"

text \<open>The transfer itself: the amount leaves the contract and is noted in the trace.\<close>

definition pay :: "host \<Rightarrow> address \<Rightarrow> uint256 \<Rightarrow> world \<Rightarrow> world" where
  "pay h dst v w = w\<lparr>balances := move (balances w) (this h) dst v, trace := trace w @ [Sent dst v]\<rparr>"

text \<open>
  \<^verbatim>\<open>payable(dst).call{ value: v }("")\<close>: the call fails, changing nothing, when
  the contract holds less than \<open>v\<close> or the recipient refuses. Otherwise the amount is
  transferred and the code of the recipient runs (\<open>r\<close>), before the caller goes on. The
  boolean is returned to the caller, who decides what a failure means.
\<close>

definition call_value :: "reentry \<Rightarrow> host \<Rightarrow> env \<Rightarrow> address \<Rightarrow> uint256 \<Rightarrow> world \<Rightarrow> bool \<times> world" where
  "call_value r h e dst v w =
     (if balances w (this h) < v \<or> \<not> accepts h dst v then (False, w)
      else (True, r e dst v (pay h dst v w)))"

definition emit :: "event \<Rightarrow> world \<Rightarrow> world" where
  "emit ev w = w\<lparr>trace := trace w @ [Emitted ev]\<rparr>"

subsection \<open>The contract\<close>

definition entries_length :: "world \<Rightarrow> uint256" where
  "entries_length w = of_nat (length (entries w))"

definition constructor :: "env \<Rightarrow> (address \<Rightarrow> uint256) \<Rightarrow> world" where
  "constructor e bal =
     \<lparr>owner = msg_sender e, entryFee = 1000000000000000, prizePool = 0, isActive = True,
      roundNumber = 1, entries = [], winners = [], participantEntries = (\<lambda>_. 0),
      hasWon = (\<lambda>_. False), balances = bal, trace = []\<rparr>"

definition enterLottery :: "host \<Rightarrow> externalEuint32 \<Rightarrow> bytes \<Rightarrow> env \<Rightarrow> world \<Rightarrow> error + world" where
  "enterLottery h encryptedNumber' inputProof e w =
     (if \<not> isActive w then Inl (Revert ''Lottery is not active'')
      else if \<not> entryFee w \<le> msg_value e then Inl (Revert ''Insufficient entry fee'')
      else case FHE_fromExternal h (msg_sender e) encryptedNumber' inputProof of
        None \<Rightarrow> Inl LibraryRevert
      | Some encryptedValue \<Rightarrow>
          let w1 = w\<lparr>entries := entries w @
                     [\<lparr>participant = msg_sender e, encryptedNumber = encryptedValue,
                       LotteryEntry.timestamp = block_timestamp e\<rparr>]\<rparr>
          in if participantEntries w1 (msg_sender e) = - 1 then Inl (Panic 0x11)
          else let w2 = w1\<lparr>participantEntries := (participantEntries w1)
                             (msg_sender e := participantEntries w1 (msg_sender e) + 1)\<rparr>
          in if uint256_max < unat (prizePool w2) + unat (msg_value e) then Inl (Panic 0x11)
          else let w3 = w2\<lparr>prizePool := prizePool w2 + msg_value e\<rparr>
          in Inr (emit (LotteryEntered (msg_sender e) (block_timestamp e) (roundNumber w3)) w3))"

definition resetLottery :: "world \<Rightarrow> error + world" where
  "resetLottery w =
     (let w1 = w\<lparr>entries := []\<rparr>;
          w2 = w1\<lparr>prizePool := 0\<rparr>
      in if roundNumber w2 = - 1 then Inl (Panic 0x11)
      else let w3 = w2\<lparr>roundNumber := roundNumber w2 + 1\<rparr>
      in Inr (emit (LotteryReset (roundNumber w3)) w3))"

text \<open>
  The index that \<^verbatim>\<open>drawWinner\<close> computes and the entry it reads there. The
  index is only evaluated once the entry count is known to be positive and the block
  number to be at least 1, and the entry only once the index is known to be in range.
\<close>

definition randomIndex :: "host \<Rightarrow> env \<Rightarrow> world \<Rightarrow> uint256" where
  "randomIndex h e w =
     keccak256_packed h (block_timestamp e) (block_number e)
       (blockhash e (block_number e - 1)) (entries_length w) (msg_sender e)
     mod entries_length w"

definition winningEntry :: "host \<Rightarrow> env \<Rightarrow> world \<Rightarrow> LotteryEntry" where
  "winningEntry h e w = entries w ! unat (randomIndex h e w)"

text \<open>
  \<^verbatim>\<open>drawWinner\<close> up to the point where the winner is recorded (the modifiers, the
  check for entries, the index, the permissions, the split of the pool, \<^verbatim>\<open>hasWon\<close>
  and \<^verbatim>\<open>winners.push\<close>). It yields the winner, the prize, the owner's fee and the
  world with the winner recorded.
\<close>

definition drawWinner_record :: "host \<Rightarrow> env \<Rightarrow> world \<Rightarrow> error + (address \<times> uint256 \<times> uint256 \<times> world)" where
  "drawWinner_record h e w =
     (if msg_sender e \<noteq> owner w then Inl (Revert ''Only owner can call this function'')
      else if \<not> isActive w then Inl (Revert ''Lottery is not active'')
      else if \<not> 0 < entries_length w then Inl (Revert ''No entries in lottery'')
      else if block_number e < 1 then Inl (Panic 0x11)
      else if length (entries w) \<le> unat (randomIndex h e w) then Inl (Panic 0x32)
      else let winner' = participant (winningEntry h e w);
               encryptedWinningNumber = encryptedNumber (winningEntry h e w)
      in if \<not> FHE_allow h encryptedWinningNumber (this h) then Inl LibraryRevert
      else if \<not> FHE_allow h encryptedWinningNumber (owner w) then Inl LibraryRevert
      else let winningNumber' = (0 :: uint32)
      in if uint256_max < unat (prizePool w) * 80 then Inl (Panic 0x11)
      else let prize' = (prizePool w * 80) div 100
      in if prizePool w < prize' then Inl (Panic 0x11)
      else let ownerFee = prizePool w - prize';
               w1 = w\<lparr>hasWon := (hasWon w)(winner' := True)\<rparr>;
               w2 = w1\<lparr>winners := winners w1 @
                      [\<lparr>winner = winner', prize = prize', winningNumber = winningNumber',
                        timestamp = block_timestamp e\<rparr>]\<rparr>
      in Inr (winner', prize', ownerFee, w2))"

text \<open>
  The whole of \<^verbatim>\<open>drawWinner\<close>: the transfers, the event, the reset, the result.
  The number in the event is the local \<^verbatim>\<open>winningNumber\<close>, which is the constant 0.
\<close>

definition drawWinner :: "reentry \<Rightarrow> host \<Rightarrow> env \<Rightarrow> world \<Rightarrow> error + (address \<times> world)" where
  "drawWinner r h e w =
     (case drawWinner_record h e w of
        Inl err \<Rightarrow> Inl err
      | Inr (winner', prize', ownerFee, w2) \<Rightarrow>
          let (successWinner, w3) = call_value r h e winner' prize' w2
          in if \<not> successWinner then Inl (Revert ''Prize transfer to winner failed'')
          else let (successOwner, w4) = call_value r h e (owner w3) ownerFee w3
          in if \<not> successOwner then Inl (Revert ''Fee transfer to owner failed'')
          else let w5 = emit (WinnerDrawn winner' prize' 0 (roundNumber w4)) w4
          in (case resetLottery w5 of
                Inl err \<Rightarrow> Inl err
              | Inr w6 \<Rightarrow> Inr (winner', w6)))"


definition getEntryFee :: "world \<Rightarrow> uint256" where
  "getEntryFee w = entryFee w"



definition getLastWinner :: "world \<Rightarrow> error + address" where
  "getLastWinner w =
     (if \<not> 0 < (of_nat (length (winners w)) :: uint256) then Inl (Revert ''No winners yet'')
      else if winners w = [] then Inl (Panic 0x32)
      else Inr (winner (last (winners w))))"

definition getAllWinners :: "world \<Rightarrow> Winner list" where
  "getAllWinners w = winners w"

definition isLotteryActive :: "world \<Rightarrow> bool" where
  "isLotteryActive w = isActive w"

definition getParticipantEntries :: "world \<Rightarrow> address \<Rightarrow> uint256" where
  "getParticipantEntries w a = participantEntries w a"

definition hasParticipantWon :: "world \<Rightarrow> address \<Rightarrow> bool" where
  "hasParticipantWon w a = hasWon w a"

definition setLotteryActive :: "bool \<Rightarrow> env \<Rightarrow> world \<Rightarrow> error + world" where
  "setLotteryActive active e w =
     (if msg_sender e \<noteq> owner w then Inl (Revert ''Only owner can call this function'')
      else Inr (emit (LotteryStatusChanged active) (w\<lparr>isActive := active\<rparr>)))"

definition setEntryFee :: "uint256 \<Rightarrow> env \<Rightarrow> world \<Rightarrow> error + world" where
  "setEntryFee newFee e w =
     (if msg_sender e \<noteq> owner w then Inl (Revert ''Only owner can call this function'')
      else Inr (w\<lparr>entryFee := newFee\<rparr>))"

definition emergencyWithdraw :: "reentry \<Rightarrow> host \<Rightarrow> env \<Rightarrow> world \<Rightarrow> error + world" where
  "emergencyWithdraw r h e w =
     (if msg_sender e \<noteq> owner w then Inl (Revert ''Only owner can call this function'')
      else let (success, w1) = call_value r h e (owner w) (balances w (this h)) w
      in if \<not> success then Inl (Revert ''Withdrawal failed'')
      else Inr w1)"

text \<open>\<^verbatim>\<open>receive()\<close> and \<^verbatim>\<open>fallback()\<close> have the same body.\<close>

definition receive :: "env \<Rightarrow> world \<Rightarrow> error + world" where
  "receive e w =
     (if uint256_max < unat (prizePool w) + unat (msg_value e) then Inl (Panic 0x11)
      else Inr (w\<lparr>prizePool := prizePool w + msg_value e\<rparr>))"

definition fallback :: "env \<Rightarrow> world \<Rightarrow> error + world" where
  "fallback e w =
     (if uint256_max < unat (prizePool w) + unat (msg_value e) then Inl (Panic 0x11)
      else Inr (w\<lparr>prizePool := prizePool w + msg_value e\<rparr>))"

subsection \<open>Calls and transactions\<close>

text \<open>A function that is not \<^verbatim>\<open>payable\<close> reverts when the call carries value.\<close>

definition nonpayable :: "env \<Rightarrow> error + world \<Rightarrow> error + world" where
  "nonpayable e r = (if msg_value e \<noteq> 0 then Inl (Revert []) else r)"

definition forget :: "error + 'a \<Rightarrow> world \<Rightarrow> error + world" where
  "forget r w = (case r of Inl err \<Rightarrow> Inl err | Inr _ \<Rightarrow> Inr w)"

text \<open>
  One call of a function of the contract: the value it carries moves from the caller to
  the contract, then the function runs; \<open>r\<close> is what the recipients of its transfers do.
\<close>

definition execute :: "reentry \<Rightarrow> host \<Rightarrow> call \<Rightarrow> env \<Rightarrow> world \<Rightarrow> error + world" where
  "execute r h c e w =
     (if balances w (msg_sender e) < msg_value e then Inl Unfunded
      else let w0 = w\<lparr>balances := move (balances w) (msg_sender e) (this h) (msg_value e)\<rparr>
      in case c of
           EnterLottery x p \<Rightarrow> enterLottery h x p e w0
         | DrawWinner \<Rightarrow>
             nonpayable e (case drawWinner r h e w0 of Inl err \<Rightarrow> Inl err | Inr (_, w') \<Rightarrow> Inr w')
         | SetLotteryActive active \<Rightarrow> nonpayable e (setLotteryActive active e w0)
         | SetEntryFee newFee \<Rightarrow> nonpayable e (setEntryFee newFee e w0)
         | EmergencyWithdraw \<Rightarrow> nonpayable e (emergencyWithdraw r h e w0)
         | Receive \<Rightarrow> receive e w0
         | Fallback _ \<Rightarrow> fallback e w0
         | GetLastWinner \<Rightarrow> nonpayable e (forget (getLastWinner w0) w0)
         | _ \<Rightarrow> nonpayable e (Inr w0))"

text \<open>
  A call seen by its caller, a transaction or the code of a recipient: a call that
  reverts leaves the world as it was before the call (the chain undoes everything the
  call did, the transfer of its value included).
\<close>

definition transact :: "reentry \<Rightarrow> host \<Rightarrow> call \<Rightarrow> env \<Rightarrow> world \<Rightarrow> error option \<times> world" where
  "transact r h c e w = (case execute r h c e w of Inl err \<Rightarrow> (Some err, w) | Inr w' \<Rightarrow> (None, w'))"

text \<open>A call is rejected: it fails, and the world after it is the world before it.\<close>

definition rejected :: "reentry \<Rightarrow> host \<Rightarrow> call \<Rightarrow> env \<Rightarrow> world \<Rightarrow> bool" where
  "rejected r h c e w = (fst (transact r h c e w) \<noteq> None \<and> snd (transact r h c e w) = w)"

text \<open>A sequence of calls, each with its own context; a call that fails is passed over.\<close>

fun run :: "reentry \<Rightarrow> host \<Rightarrow> (call \<times> env) list \<Rightarrow> world \<Rightarrow> world" where
  "run r h [] w = w"
| "run r h ((c, e) # cs) w = run r h cs (snd (transact r h c e w))"

text \<open>
  The code of a recipient, with \<open>n\<close> levels of re-entry left. It makes the calls
  that \<open>receiver\<close> lists, in the block of the call that pays it and as their sender.
  The transfers of those calls reach recipients with one level less. With no level left
  (the chain bounds the depth of calls) each of its calls fails and changes nothing. A
  transaction from outside, with \<open>n\<close> levels for the recipients of its transfers, is
  \<open>transact (recipient_code h n) h\<close>.
\<close>

primrec recipient_code :: "host \<Rightarrow> nat \<Rightarrow> reentry" where
  "recipient_code h 0 = (\<lambda>e dst v w. w)"
| "recipient_code h (Suc n) =
     (\<lambda>e dst v w.
        run (recipient_code h n) h
          (map (\<lambda>(c, x). (c, e\<lparr>msg_sender := dst, msg_value := x\<rparr>)) (receiver h dst v w)) w)"

text \<open>
  What no call undoes, from a world to a later one: the owner is the same, no entry
  count is lower, the history of winners begins with the old history, and the round
  number is not lower.
\<close>

definition evolves :: "world \<Rightarrow> world \<Rightarrow> bool" where
  "evolves w w' =
     (owner w' = owner w \<and> (\<forall>a. participantEntries w a \<le> participantEntries w' a)
      \<and> take (length (winners w)) (winners w') = winners w
      \<and> roundNumber w \<le> roundNumber w')"

subsection \<open>A sample chain\<close>

text \<open>
  Concrete accounts, a host whose library and recipients always agree and whose
  recipients make no calls, and worlds of the first round, used to run the model: the lottery is deployed by \<open>deployer\<close> at
  address 100, the fee is 0.001 ether, \<open>alice\<close> has entered with the fee and \<open>bob\<close>
  with twice the fee.
\<close>

definition deployer :: address where "deployer = 1"
definition alice :: address where "alice = 2"
definition bob :: address where "bob = 3"

definition sample_host :: host where
  "sample_host =
     \<lparr>this = 100, keccak256_packed = (\<lambda>t n b l s. t + n + b + l + ucast s),
      FHE_fromExternal = (\<lambda>a x p. Some x), FHE_allow = (\<lambda>x a. True),
      accepts = (\<lambda>a v. True), receiver = (\<lambda>a v w. [])\<rparr>"

text \<open>The same host, except that the owner's account refuses every transfer.\<close>

definition owner_refusing_host :: host where
  "owner_refusing_host = sample_host\<lparr>accepts := (\<lambda>a v. a \<noteq> 1)\<rparr>"

definition sample_env :: "address \<Rightarrow> uint256 \<Rightarrow> env" where
  "sample_env a v =
     \<lparr>msg_sender = a, msg_value = v, block_timestamp = 1700000000, block_number = 10,
      blockhash = (\<lambda>n. n)\<rparr>"

definition fresh_world :: world where
  "fresh_world = constructor (sample_env deployer 0) (\<lambda>a. if a = 100 then 0 else 5000000000000000)"

definition round1_world :: world where
  "round1_world =
     \<lparr>owner = 1, entryFee = 1000000000000000, prizePool = 3000000000000000, isActive = True,
      roundNumber = 1,
      entries = [\<lparr>participant = 2, encryptedNumber = 50, LotteryEntry.timestamp = 1700000000\<rparr>,
                 \<lparr>participant = 3, encryptedNumber = 75, LotteryEntry.timestamp = 1700000000\<rparr>],
      winners = [], participantEntries = (\<lambda>a. if a = 2 \<or> a = 3 then 1 else 0),
      hasWon = (\<lambda>_. False),
      balances = (\<lambda>a. if a = 100 then 3000000000000000 else 5000000000000000),
      trace = []\<rparr>"

definition paused_world :: world where
  "paused_world = round1_world\<lparr>isActive := False\<rparr>"

text \<open>
  The same host, except that the owner's account is a contract: when it receives a
  transfer and the history holds exactly one winner, it calls \<^verbatim>\<open>drawWinner\<close>.
\<close>

definition reentering_host :: host where
  "reentering_host =
     sample_host\<lparr>receiver := (\<lambda>a v w. if a = 1 \<and> length (winners w) = 1
                                         then [(DrawWinner, 0)] else [])\<rparr>"


section \<open>Auxiliary facts\<close>

subsection \<open>Checked arithmetic\<close>

lemma word_inc_exact:
  fixes x :: "'a::len word"
  assumes "x \<noteq> - 1"
  shows "unat (x + 1) = unat x + 1"
proof -
  have "1 + x \<noteq> 0"
    using assms max_word_wrap [of x] by (auto simp: add.commute)
  then have "unat (1 + x) = Suc (unat x)"
    by (rule unatSuc)
  then show ?thesis
    by (simp add: add.commute)
qed

lemma word_inc_le:
  fixes x :: "'a::len word"
  assumes "x \<noteq> - 1"
  shows "x \<le> x + 1"
  using assms inc_less_eq_self_iff_eq [of x] by auto

lemma uint256_mult_exact:
  "\<not> uint256_max < unat (x :: uint256) * unat (y :: uint256) \<Longrightarrow> unat (x * y) = unat x * unat y"
  unfolding uint256_max_def using unat_mult_lem [of x y] by simp

lemma uint256_add_exact:
  "\<not> uint256_max < unat (x :: uint256) + unat (y :: uint256) \<Longrightarrow> unat (x + y) = unat x + unat y"
  unfolding uint256_max_def using unat_add_lem [of x y] by simp

lemma unat_80: "unat (80 :: uint256) = 80"
  by simp

lemma unat_100: "unat (100 :: uint256) = 100"
  by simp

lemma prize_exact:
  assumes "\<not> uint256_max < unat (pool :: uint256) * 80"
  shows "unat (pool * 80 div 100) = unat pool * 80 div 100"
proof -
  have "\<not> uint256_max < unat pool * unat (80 :: uint256)"
    unfolding unat_80 by (rule assms)
  then have "unat (pool * 80) = unat pool * unat (80 :: uint256)"
    by (rule uint256_mult_exact)
  then show ?thesis
    by (simp only: unat_div unat_80 unat_100)
qed


subsection \<open>Moving ether\<close>

lemma move_zero: "move bal a b 0 = bal"
  by (simp add: move_def)


lemma move_other: "c \<noteq> a \<Longrightarrow> c \<noteq> b \<Longrightarrow> move bal a b v c = bal c"
  by (simp add: move_def)

lemma move_src: "a \<noteq> b \<Longrightarrow> move bal a b v a = bal a - v"
  by (simp add: move_def)

lemma move_dst: "a \<noteq> b \<Longrightarrow> move bal a b v b = bal b + v"
  by (simp add: move_def)

lemma call_value_True:
  assumes "call_value r h e d v w = (True, w')"
  shows "v \<le> balances w (this h)" "accepts h d v" "w' = r e d v (pay h d v w)"
  using assms by (auto simp: call_value_def split: if_splits)

lemma call_value_False:
  assumes "call_value r h e d v w = (False, w')"
  shows "w' = w" "balances w (this h) < v \<or> \<not> accepts h d v"
  using assms by (auto simp: call_value_def split: if_splits)

lemma call_value_ok:
  assumes "v \<le> balances w (this h)" "accepts h d v"
  shows "call_value r h e d v w = (True, r e d v (pay h d v w))"
  using assms by (simp add: call_value_def not_less)

lemma call_value_fst:
  "fst (call_value r h e d v w) \<longleftrightarrow> v \<le> balances w (this h) \<and> accepts h d v"
  by (auto simp: call_value_def not_less)

lemma call_value_snd:
  "snd (call_value r h e d v w) = (if fst (call_value r h e d v w) then r e d v (pay h d v w) else w)"
  by (simp add: call_value_def)

subsection \<open>Recipients that make no calls\<close>

lemma recipient_code_silent:
  assumes "silent h d"
  shows "recipient_code h n e d v w = w"
  using assms by (cases n) (simp_all add: silent_def)

subsection \<open>The steps of a draw\<close>

lemma resetLottery_Inr:
  assumes "resetLottery w = Inr w'"
  shows "roundNumber w \<noteq> - 1"
    "w' = w\<lparr>entries := [], prizePool := 0, roundNumber := roundNumber w + 1,
            trace := trace w @ [Emitted (LotteryReset (roundNumber w + 1))]\<rparr>"
  using assms by (auto simp: resetLottery_def emit_def Let_def split: if_splits)

lemma drawWinner_record_Inr:
  assumes "drawWinner_record h e w = Inr (a, p, f, w2)"
  shows "msg_sender e = owner w" "isActive w" "0 < entries_length w"
    "unat (randomIndex h e w) < length (entries w)"
    "\<not> uint256_max < unat (prizePool w) * 80"
    "a = participant (winningEntry h e w)" "p = prizePool w * 80 div 100" "f = prizePool w - p"
    "p \<le> prizePool w"
    "w2 = w\<lparr>winners := winners w @ [\<lparr>winner = a, prize = p, winningNumber = 0, timestamp = block_timestamp e\<rparr>],
             hasWon := (hasWon w)(a := True)\<rparr>"
  using assms unfolding drawWinner_record_def Let_def
  by (auto split: if_splits simp del: word_less_1)

lemma drawWinner_Inl_record:
  "drawWinner_record h e w = Inl err \<Longrightarrow> drawWinner r h e w = Inl err"
  by (simp add: drawWinner_def)

text \<open>
  The worlds a successful draw goes through: the winner recorded, the winner paid (and
  the winner's code run), the owner paid (and the owner's code run), the round reset.
\<close>

lemma drawWinner_Inr:
  assumes "drawWinner r h e w = Inr (a, w')"
  defines "p \<equiv> prizePool w * 80 div 100"
  defines "w2 \<equiv> w\<lparr>winners := winners w @ [\<lparr>winner = a, prize = p, winningNumber = 0,
                                               timestamp = block_timestamp e\<rparr>],
                    hasWon := (hasWon w)(a := True)\<rparr>"
  defines "w3 \<equiv> r e a p (pay h a p w2)"
  defines "w4 \<equiv> r e (owner w3) (prizePool w - p) (pay h (owner w3) (prizePool w - p) w3)"
  shows "drawWinner_record h e w = Inr (a, p, prizePool w - p, w2)"
    and "p \<le> balances w (this h)" and "accepts h a p"
    and "prizePool w - p \<le> balances w3 (this h)" and "accepts h (owner w3) (prizePool w - p)"
    and "roundNumber w4 \<noteq> - 1"
    and "w' = w4\<lparr>trace := trace w4 @ [Emitted (WinnerDrawn a p 0 (roundNumber w4)),
                                        Emitted (LotteryReset (roundNumber w4 + 1))],
                 entries := [], prizePool := 0, roundNumber := roundNumber w4 + 1\<rparr>"
proof -
  obtain a0 p0 f0 v2 where rec: "drawWinner_record h e w = Inr (a0, p0, f0, v2)"
    using assms(1) by (cases "drawWinner_record h e w") (auto simp: drawWinner_def)
  note rr = drawWinner_record_Inr [OF rec]
  obtain ok1 v3 where c1: "call_value r h e a0 p0 v2 = (ok1, v3)"
    by (cases "call_value r h e a0 p0 v2")
  obtain ok2 v4 where c2: "call_value r h e (owner v3) f0 v3 = (ok2, v4)"
    by (cases "call_value r h e (owner v3) f0 v3")
  have ok1: ok1
    using assms(1) rec c1 by (auto simp: drawWinner_def split: if_splits)
  have ok2: ok2
    using assms(1) rec c1 c2 ok1 by (auto simp: drawWinner_def split: if_splits)
  obtain v6 where rs: "resetLottery (emit (WinnerDrawn a0 p0 0 (roundNumber v4)) v4) = Inr v6"
    and res: "a = a0" "w' = v6"
    using assms(1) rec c1 c2 ok1 ok2
    by (auto simp: drawWinner_def Let_def split: if_splits sum.splits)
  note t1 = call_value_True [OF c1 [unfolded eqTrueI [OF ok1]]]
  note t2 = call_value_True [OF c2 [unfolded eqTrueI [OF ok2]]]
  have p0: "p0 = p" and f0: "f0 = prizePool w - p"
    using rr(7,8) by (simp_all add: p_def)
  have v2: "v2 = w2"
    using rr(10) res(1) p0 by (simp add: w2_def)
  have v3: "v3 = w3"
    using t1(3) by (simp add: w3_def v2 p0 res(1))
  have v4: "v4 = w4"
    using t2(3) by (simp add: w4_def v3 f0)
  note rl = resetLottery_Inr [OF rs]
  show "drawWinner_record h e w = Inr (a, p, prizePool w - p, w2)"
    using rec by (simp add: res(1) p0 f0 v2)
  show "p \<le> balances w (this h)"
    using t1(1) by (simp add: v2 w2_def p0)
  show "accepts h a p"
    using t1(2) by (simp add: res(1) p0)
  show "prizePool w - p \<le> balances w3 (this h)"
    using t2(1) by (simp add: v3 f0)
  show "accepts h (owner w3) (prizePool w - p)"
    using t2(2) by (simp add: v3 f0)
  show "roundNumber w4 \<noteq> - 1"
    using rl(1) by (simp add: emit_def v4)
  show "w' = w4\<lparr>trace := trace w4 @ [Emitted (WinnerDrawn a p 0 (roundNumber w4)),
                                        Emitted (LotteryReset (roundNumber w4 + 1))],
                 entries := [], prizePool := 0, roundNumber := roundNumber w4 + 1\<rparr>"
    unfolding res(2) rl(2) by (simp add: emit_def v4 res(1) p0)
qed

text \<open>The same, when neither the winner nor the owner makes a call.\<close>

lemma drawWinner_Inr_silent:
  assumes "drawWinner (recipient_code h n) h e w = Inr (a, w')"
    and "silent h a" and "silent h (owner w)"
  defines "p \<equiv> prizePool w * 80 div 100"
  shows "roundNumber w \<noteq> - 1"
    and "w' = w\<lparr>winners := winners w @ [\<lparr>winner = a, prize = p, winningNumber = 0,
                                              timestamp = block_timestamp e\<rparr>],
             hasWon := (hasWon w)(a := True),
             balances := move (move (balances w) (this h) a p) (this h) (owner w) (prizePool w - p),
             trace := trace w @ [Sent a p, Sent (owner w) (prizePool w - p),
                        Emitted (WinnerDrawn a p 0 (roundNumber w)),
                        Emitted (LotteryReset (roundNumber w + 1))],
             entries := [], prizePool := 0, roundNumber := roundNumber w + 1\<rparr>"
    and "prizePool w - p \<le> move (balances w) (this h) a p (this h)"
proof -
  note d = drawWinner_Inr [OF assms(1), folded p_def]
  let ?w2 = "w\<lparr>winners := winners w @ [\<lparr>winner = a, prize = p, winningNumber = 0,
                                            timestamp = block_timestamp e\<rparr>],
               hasWon := (hasWon w)(a := True)\<rparr>"
  have w3: "recipient_code h n e a p (pay h a p ?w2) = pay h a p ?w2"
    using assms(2) by (rule recipient_code_silent)
  have own: "owner (pay h a p ?w2) = owner w"
    by (simp add: pay_def)
  have w4: "recipient_code h n e (owner w) (prizePool w - p)
              (pay h (owner w) (prizePool w - p) (pay h a p ?w2))
            = pay h (owner w) (prizePool w - p) (pay h a p ?w2)"
    using assms(3) by (rule recipient_code_silent)
  show "roundNumber w \<noteq> - 1"
    using d(6) unfolding w3 own w4 by (simp add: pay_def)
  show "w' = w\<lparr>winners := winners w @ [\<lparr>winner = a, prize = p, winningNumber = 0,
                                              timestamp = block_timestamp e\<rparr>],
             hasWon := (hasWon w)(a := True),
             balances := move (move (balances w) (this h) a p) (this h) (owner w) (prizePool w - p),
             trace := trace w @ [Sent a p, Sent (owner w) (prizePool w - p),
                        Emitted (WinnerDrawn a p 0 (roundNumber w)),
                        Emitted (LotteryReset (roundNumber w + 1))],
             entries := [], prizePool := 0, roundNumber := roundNumber w + 1\<rparr>"
    using d(7) unfolding w3 own w4 by (simp add: pay_def)
  show "prizePool w - p \<le> move (balances w) (this h) a p (this h)"
    using d(4) unfolding w3 by (simp add: pay_def)
qed

subsection \<open>Calls\<close>

lemma credit_nothing:
  "msg_value e = 0 \<Longrightarrow> w\<lparr>balances := move (balances w) (msg_sender e) t (msg_value e)\<rparr> = w"
  by (simp add: move_zero)

lemma execute_DrawWinner:
  "execute r h DrawWinner e w =
     (if msg_value e \<noteq> 0 then (if balances w (msg_sender e) < msg_value e then Inl Unfunded else Inl (Revert []))
      else case drawWinner r h e w of Inl err \<Rightarrow> Inl err | Inr (_, w') \<Rightarrow> Inr w')"
  by (simp add: execute_def nonpayable_def move_zero Let_def)

lemma execute_SetLotteryActive:
  "execute r h (SetLotteryActive b) e w =
     (if msg_value e \<noteq> 0 then (if balances w (msg_sender e) < msg_value e then Inl Unfunded else Inl (Revert []))
      else setLotteryActive b e w)"
  by (simp add: execute_def nonpayable_def move_zero Let_def)

lemma execute_SetEntryFee:
  "execute r h (SetEntryFee f) e w =
     (if msg_value e \<noteq> 0 then (if balances w (msg_sender e) < msg_value e then Inl Unfunded else Inl (Revert []))
      else setEntryFee f e w)"
  by (simp add: execute_def nonpayable_def move_zero Let_def)

lemma execute_EmergencyWithdraw:
  "execute r h EmergencyWithdraw e w =
     (if msg_value e \<noteq> 0 then (if balances w (msg_sender e) < msg_value e then Inl Unfunded else Inl (Revert []))
      else emergencyWithdraw r h e w)"
  by (simp add: execute_def nonpayable_def move_zero Let_def)

lemma transact_failed: "fst (transact r h c e w) \<noteq> None \<Longrightarrow> snd (transact r h c e w) = w"
  by (simp add: transact_def split: sum.splits)

subsection \<open>What a successful call has done\<close>

lemma enterLottery_Inr:
  assumes "enterLottery h x pr e w = Inr w'"
  shows "isActive w" "entryFee w \<le> msg_value e"
    "participantEntries w (msg_sender e) \<noteq> - 1"
    "\<not> uint256_max < unat (prizePool w) + unat (msg_value e)"
    "\<exists>enc. FHE_fromExternal h (msg_sender e) x pr = Some enc \<and>
       w' = w\<lparr>entries := entries w @ [\<lparr>participant = msg_sender e, encryptedNumber = enc,
                                        LotteryEntry.timestamp = block_timestamp e\<rparr>],
              participantEntries := (participantEntries w)
                 (msg_sender e := participantEntries w (msg_sender e) + 1),
              prizePool := prizePool w + msg_value e,
              trace := trace w @ [Emitted (LotteryEntered (msg_sender e) (block_timestamp e)
                                   (roundNumber w))]\<rparr>"
  using assms unfolding enterLottery_def Let_def emit_def
  by (auto split: if_splits option.splits)

lemma setLotteryActive_Inr:
  assumes "setLotteryActive b e w = Inr w'"
  shows "msg_sender e = owner w"
    "w' = w\<lparr>isActive := b, trace := trace w @ [Emitted (LotteryStatusChanged b)]\<rparr>"
  using assms by (auto simp: setLotteryActive_def emit_def split: if_splits)

lemma setEntryFee_Inr:
  assumes "setEntryFee f e w = Inr w'"
  shows "msg_sender e = owner w" "w' = w\<lparr>entryFee := f\<rparr>"
  using assms by (auto simp: setEntryFee_def split: if_splits)

lemma emergencyWithdraw_Inr:
  assumes "emergencyWithdraw r h e w = Inr w'"
  shows "msg_sender e = owner w" "accepts h (owner w) (balances w (this h))"
    "w' = r e (owner w) (balances w (this h)) (pay h (owner w) (balances w (this h)) w)"
  using assms by (auto simp: emergencyWithdraw_def call_value_def split: if_splits)

lemma receive_Inr:
  assumes "receive e w = Inr w'"
  shows "w' = w\<lparr>prizePool := prizePool w + msg_value e\<rparr>"
  using assms by (auto simp: receive_def split: if_splits)

lemma fallback_Inr:
  assumes "fallback e w = Inr w'"
  shows "w' = w\<lparr>prizePool := prizePool w + msg_value e\<rparr>"
  using assms by (auto simp: fallback_def split: if_splits)

lemma execute_EnterLottery:
  "execute r h (EnterLottery x pr) e w =
     (if balances w (msg_sender e) < msg_value e then Inl Unfunded
      else enterLottery h x pr e
             (w\<lparr>balances := move (balances w) (msg_sender e) (this h) (msg_value e)\<rparr>))"
  by (simp add: execute_def Let_def)

lemma execute_Receive:
  "execute r h Receive e w =
     (if balances w (msg_sender e) < msg_value e then Inl Unfunded
      else receive e (w\<lparr>balances := move (balances w) (msg_sender e) (this h) (msg_value e)\<rparr>))"
  by (simp add: execute_def Let_def)

lemma execute_Fallback:
  "execute r h (Fallback d) e w =
     (if balances w (msg_sender e) < msg_value e then Inl Unfunded
      else fallback e (w\<lparr>balances := move (balances w) (msg_sender e) (this h) (msg_value e)\<rparr>))"
  by (simp add: execute_def Let_def)

lemma execute_view:
  assumes "c \<in> {GetPrizePool, GetEntryFee, GetEntryCount, GetCurrentRound, GetLastWinner,
                 GetAllWinners, IsLotteryActive} \<or> c = GetParticipantEntries a
           \<or> c = HasParticipantWon a"
    and "execute r h c e w = Inr w'"
  shows "w' = w"
  using assms
  by (auto simp: execute_def nonpayable_def forget_def move_zero Let_def
           split: if_splits sum.splits)

text \<open>Every call is one of seven that may write, or a view.\<close>

lemma execute_Inr_cases:
  assumes "execute r h c e w = Inr w'"
  obtains
    (enter) x pr where "c = EnterLottery x pr"
      "enterLottery h x pr e
         (w\<lparr>balances := move (balances w) (msg_sender e) (this h) (msg_value e)\<rparr>) = Inr w'"
  | (draw) a where "c = DrawWinner" "drawWinner r h e w = Inr (a, w')"
  | (active) b where "c = SetLotteryActive b" "setLotteryActive b e w = Inr w'"
  | (fee) f where "c = SetEntryFee f" "setEntryFee f e w = Inr w'"
  | (sweep) "c = EmergencyWithdraw" "emergencyWithdraw r h e w = Inr w'"
  | (gift) "receive e (w\<lparr>balances := move (balances w) (msg_sender e) (this h) (msg_value e)\<rparr>)
              = Inr w'"
  | (gift') "fallback e (w\<lparr>balances := move (balances w) (msg_sender e) (this h) (msg_value e)\<rparr>)
              = Inr w'"
  | (view) "w' = w"
proof (cases c)
  case (EnterLottery x pr)
  then show ?thesis
    using assms enter by (simp add: execute_EnterLottery split: if_splits)
next
  case DrawWinner
  then show ?thesis
    using assms draw by (auto simp: execute_DrawWinner split: if_splits sum.splits)
next
  case (SetLotteryActive b)
  then show ?thesis
    using assms active by (simp add: execute_SetLotteryActive split: if_splits)
next
  case (SetEntryFee f)
  then show ?thesis
    using assms fee by (simp add: execute_SetEntryFee split: if_splits)
next
  case EmergencyWithdraw
  then show ?thesis
    using assms sweep by (simp add: execute_EmergencyWithdraw split: if_splits)
next
  case Receive
  then show ?thesis
    using assms gift by (simp add: execute_Receive split: if_splits)
next
  case (Fallback d)
  then show ?thesis
    using assms gift' by (simp add: execute_Fallback split: if_splits)
next
  case (GetParticipantEntries a)
  then show ?thesis
    using assms view execute_view [of c a r h e w w'] by simp
next
  case (HasParticipantWon a)
  then show ?thesis
    using assms view execute_view [of c a r h e w w'] by simp
qed (use assms view execute_view [of c undefined r h e w w'] in simp_all)

lemma run_append: "run r h (cs @ ds) w = run r h ds (run r h cs w)"
  by (induction cs arbitrary: w) auto

subsection \<open>What no call undoes\<close>

lemma evolves_refl: "evolves w w"
  by (simp add: evolves_def)

lemma evolves_length:
  assumes "evolves w w'"
  shows "length (winners w) \<le> length (winners w')"
proof -
  have "take (length (winners w)) (winners w') = winners w"
    using assms by (simp add: evolves_def)
  then have "length (take (length (winners w)) (winners w')) = length (winners w)"
    by simp
  then show ?thesis
    by (simp add: min_def split: if_splits)
qed

lemma evolves_trans:
  assumes "evolves w1 w2" and "evolves w2 w3"
  shows "evolves w1 w3"
proof -
  have len: "length (winners w1) \<le> length (winners w2)"
    using assms(1) by (rule evolves_length)
  have "take (length (winners w1)) (winners w3)
        = take (length (winners w1)) (take (length (winners w2)) (winners w3))"
    using len by (simp add: min_def)
  also have "\<dots> = winners w1"
    using assms by (simp add: evolves_def)
  finally have "take (length (winners w1)) (winners w3) = winners w1" .
  moreover have "participantEntries w1 a \<le> participantEntries w3 a" for a
  proof -
    have "participantEntries w1 a \<le> participantEntries w2 a"
      "participantEntries w2 a \<le> participantEntries w3 a"
      using assms by (simp_all add: evolves_def)
    then show ?thesis
      by (rule order_trans)
  qed
  moreover have "roundNumber w1 \<le> roundNumber w3" "owner w3 = owner w1"
    using assms by (auto simp: evolves_def)
  ultimately show ?thesis
    by (simp add: evolves_def)
qed

lemma evolves_frame:
  assumes "owner w' = owner w" "participantEntries w' = participantEntries w"
    "winners w' = winners w" "roundNumber w' = roundNumber w"
  shows "evolves w w'"
  using assms by (simp add: evolves_def)

lemma evolves_pay: "evolves w (pay h d v w)"
  by (rule evolves_frame) (simp_all add: pay_def)

lemma evolves_call:
  assumes "\<And>e d v w. evolves w (r e d v w)"
  shows "evolves w (r e d v (pay h d v w))"
  using evolves_pay assms by (rule evolves_trans)

lemma drawWinner_evolves:
  assumes r: "\<And>e d v w. evolves w (r e d v w)"
    and d: "drawWinner r h e w = Inr (a, w')"
  shows "evolves w w'"
proof -
  define p where "p = prizePool w * 80 div 100"
  define w2 where "w2 = w\<lparr>winners := winners w @ [\<lparr>winner = a, prize = p, winningNumber = 0,
                                               timestamp = block_timestamp e\<rparr>],
                    hasWon := (hasWon w)(a := True)\<rparr>"
  define w3 where "w3 = r e a p (pay h a p w2)"
  define w4 where "w4 = r e (owner w3) (prizePool w - p) (pay h (owner w3) (prizePool w - p) w3)"
  note dd = drawWinner_Inr [OF d, folded p_def, folded w2_def, folded w3_def, folded w4_def]
  have s1: "evolves w w2"
    by (simp add: evolves_def w2_def)
  have s2: "evolves w2 w3"
    unfolding w3_def using r by (rule evolves_call)
  have s3: "evolves w3 w4"
    unfolding w4_def using r by (rule evolves_call)
  have s4: "evolves w4 w'"
    unfolding dd(7) using word_inc_le [OF dd(6)] by (simp add: evolves_def)
  show ?thesis
    using evolves_trans [OF evolves_trans [OF s1 s2] evolves_trans [OF s3 s4]] .
qed

lemma execute_evolves:
  assumes r: "\<And>e d v w. evolves w (r e d v w)"
    and ex: "execute r h c e w = Inr w'"
  shows "evolves w w'"
  using ex
proof (cases rule: execute_Inr_cases)
  case (enter x pr)
  note en = enterLottery_Inr [OF enter(2)]
  have "participantEntries w (msg_sender e) \<le> participantEntries w (msg_sender e) + 1"
    using en(3) by (intro word_inc_le) simp
  then show ?thesis
    using en(5) by (auto simp: evolves_def)
next
  case (draw a)
  show ?thesis
    using r draw(2) by (rule drawWinner_evolves)
next
  case (active b)
  show ?thesis
    unfolding setLotteryActive_Inr(2) [OF active(2)] by (simp add: evolves_def)
next
  case (fee f)
  show ?thesis
    unfolding setEntryFee_Inr(2) [OF fee(2)] by (simp add: evolves_def)
next
  case sweep
  show ?thesis
    unfolding emergencyWithdraw_Inr(3) [OF sweep(2)] using r by (rule evolves_call)
next
  case gift
  show ?thesis
    unfolding receive_Inr [OF gift] by (simp add: evolves_def)
next
  case gift'
  show ?thesis
    unfolding fallback_Inr [OF gift'] by (simp add: evolves_def)
next
  case view
  then show ?thesis
    by (simp add: evolves_refl)
qed

lemma transact_evolves:
  assumes "\<And>e d v w. evolves w (r e d v w)"
  shows "evolves w (snd (transact r h c e w))"
proof (cases "execute r h c e w")
  case (Inl err)
  then show ?thesis
    by (simp add: transact_def evolves_refl)
next
  case (Inr w')
  have "evolves w w'"
    using assms Inr by (rule execute_evolves)
  then show ?thesis
    using Inr by (simp add: transact_def)
qed

lemma run_evolves:
  assumes r: "\<And>e d v w. evolves w (r e d v w)"
  shows "evolves w (run r h cs w)"
proof (induction cs arbitrary: w)
  case Nil
  show ?case by (simp add: evolves_refl)
next
  case (Cons ce cs)
  obtain c e where ce: "ce = (c, e)"
    by (cases ce)
  have "evolves w (snd (transact r h c e w))"
    using r by (rule transact_evolves)
  then show ?case
    unfolding ce run.simps using Cons.IH by (rule evolves_trans)
qed

lemma recipient_code_evolves: "evolves w (recipient_code h n e d v w)"
proof (induction n arbitrary: e d v w)
  case 0
  show ?case by (simp add: evolves_refl)
next
  case (Suc n)
  show ?case
    unfolding recipient_code.simps by (rule run_evolves) (rule Suc.IH)
qed

lemma recipient_code_owner: "owner (recipient_code h n e d v w) = owner w"
  using recipient_code_evolves [of w h n e d v] by (simp add: evolves_def)

subsection \<open>The sample chain, evaluated\<close>

lemmas sample_defs = sample_host_def owner_refusing_host_def reentering_host_def sample_env_def
  round1_world_def paused_world_def deployer_def alice_def bob_def

lemma sample_silent: "silent sample_host a" "silent owner_refusing_host a"
  by (simp_all add: silent_def sample_defs)

lemma sample_quiet:
  "recipient_code sample_host n e d v w = w" "recipient_code owner_refusing_host n e d v w = w"
  by (simp_all add: recipient_code_silent sample_silent)

lemma sample_index: "randomIndex sample_host (sample_env deployer 0) round1_world = 0"
  by (simp add: randomIndex_def entries_length_def sample_defs)

lemma sample_index_refusing: "randomIndex owner_refusing_host (sample_env deployer 0) round1_world = 0"
  by (simp add: randomIndex_def entries_length_def sample_defs)

lemma sample_record:
  "drawWinner_record sample_host (sample_env deployer 0) round1_world =
     Inr (alice, 2400000000000000, 600000000000000,
          round1_world\<lparr>hasWon := (hasWon round1_world)(alice := True),
            winners := [\<lparr>winner = alice, prize = 2400000000000000, winningNumber = 0,
                         timestamp = 1700000000\<rparr>]\<rparr>)"
  unfolding drawWinner_record_def winningEntry_def sample_index
  by (simp add: entries_length_def uint256_max_def sample_defs)

lemma sample_record_refusing:
  "drawWinner_record owner_refusing_host (sample_env deployer 0) round1_world =
     Inr (alice, 2400000000000000, 600000000000000,
          round1_world\<lparr>hasWon := (hasWon round1_world)(alice := True),
            winners := [\<lparr>winner = alice, prize = 2400000000000000, winningNumber = 0,
                         timestamp = 1700000000\<rparr>]\<rparr>)"
  unfolding drawWinner_record_def winningEntry_def sample_index_refusing
  by (simp add: entries_length_def uint256_max_def sample_defs)

lemma sample_draw:
  "\<exists>w'. drawWinner (recipient_code sample_host n) sample_host (sample_env deployer 0) round1_world
          = Inr (alice, w')"
  unfolding drawWinner_def sample_record
  by (simp add: call_value_def recipient_code_silent silent_def pay_def resetLottery_def emit_def
        move_def sample_defs)



section \<open>The claims\<close>

subsection \<open>C1: a failed payout rejects the whole draw\<close>

text \<open>
  Claim C1. Take a call of \<^verbatim>\<open>drawWinner\<close> that reaches the payouts: it has
  recorded the winner \<open>a\<close> and computed the prize \<open>p\<close> and the owner's fee \<open>f\<close>.
  If the transfer of the prize to the winner fails, or that one succeeds and the transfer
  of the fee to the owner fails, the call reverts with the message of the failed transfer,
  and the transaction leaves the world exactly as it was before the call: every storage
  variable, every balance (no funds have left the contract, not even a prize already
  handed to the winner) and the trace; what the winner's code did by calling back is
  undone as well. This holds at every depth \<open>n\<close> of re-entry.
\<close>

theorem drawWinner_failed_transfer_atomic:
  assumes "drawWinner_record h e w = Inr (a, p, f, w2)"
    and "\<not> fst (call_value (recipient_code h n) h e a p w2) \<or>
         \<not> fst (call_value (recipient_code h n) h e (owner w2) f
                  (snd (call_value (recipient_code h n) h e a p w2)))"
  shows "(\<not> fst (call_value (recipient_code h n) h e a p w2) \<longrightarrow>
            drawWinner (recipient_code h n) h e w = Inl (Revert ''Prize transfer to winner failed''))
       \<and> (fst (call_value (recipient_code h n) h e a p w2) \<longrightarrow>
            drawWinner (recipient_code h n) h e w = Inl (Revert ''Fee transfer to owner failed''))
       \<and> fst (transact (recipient_code h n) h DrawWinner e w) \<noteq> None
       \<and> snd (transact (recipient_code h n) h DrawWinner e w) = w"
proof -
  let ?r = "recipient_code h n"
  obtain ok1 w3 where c1: "call_value ?r h e a p w2 = (ok1, w3)"
    by (cases "call_value ?r h e a p w2")
  obtain ok2 w4 where c2: "call_value ?r h e (owner w3) f w3 = (ok2, w4)"
    by (cases "call_value ?r h e (owner w3) f w3")
  have own: "owner w3 = owner w2"
    using c1 by (auto simp: call_value_def recipient_code_owner pay_def split: if_splits)
  have first: "drawWinner ?r h e w = Inl (Revert ''Prize transfer to winner failed'')" if "\<not> ok1"
    using that assms(1) c1 by (simp add: drawWinner_def)
  have second: "drawWinner ?r h e w = Inl (Revert ''Fee transfer to owner failed'')" if "ok1"
  proof -
    have "\<not> ok2"
      using that assms(2) c1 c2 own by simp
    then show ?thesis
      using that assms(1) c1 c2 by (simp add: drawWinner_def)
  qed
  have "\<exists>err. drawWinner ?r h e w = Inl err"
    using first second by (cases ok1) auto
  then have "\<exists>err. execute ?r h DrawWinner e w = Inl err"
    by (auto simp: execute_DrawWinner)
  then have "fst (transact ?r h DrawWinner e w) \<noteq> None \<and> snd (transact ?r h DrawWinner e w) = w"
    by (auto simp: transact_def)
  then show ?thesis
    using first second c1 by simp
qed

theorem drawWinner_failed_transfer_atomic_witness:
  "drawWinner_record owner_refusing_host (sample_env deployer 0) round1_world =
     Inr (alice, 2400000000000000, 600000000000000,
          round1_world\<lparr>hasWon := (hasWon round1_world)(alice := True),
            winners := [\<lparr>winner = alice, prize = 2400000000000000, winningNumber = 0,
                         timestamp = 1700000000\<rparr>]\<rparr>)
   \<and> drawWinner (recipient_code owner_refusing_host (Suc 0)) owner_refusing_host
         (sample_env deployer 0) round1_world = Inl (Revert ''Fee transfer to owner failed'')
   \<and> fst (transact (recipient_code owner_refusing_host (Suc 0)) owner_refusing_host DrawWinner
            (sample_env deployer 0) round1_world) \<noteq> None
   \<and> snd (transact (recipient_code owner_refusing_host (Suc 0)) owner_refusing_host DrawWinner
            (sample_env deployer 0) round1_world) = round1_world"
proof -
  let ?r = "recipient_code owner_refusing_host (Suc 0)"
  let ?w2 = "round1_world\<lparr>hasWon := (hasWon round1_world)(alice := True),
            winners := [\<lparr>winner = alice, prize = 2400000000000000, winningNumber = 0,
                         timestamp = 1700000000\<rparr>]\<rparr>"
  have paid: "fst (call_value ?r owner_refusing_host (sample_env deployer 0) alice
                    2400000000000000 ?w2)"
    by (simp add: call_value_fst sample_defs)
  have refused: "\<not> fst (call_value ?r owner_refusing_host (sample_env deployer 0) (owner ?w2)
           600000000000000
           (snd (call_value ?r owner_refusing_host (sample_env deployer 0) alice
                   2400000000000000 ?w2)))"
    by (simp add: call_value_fst sample_defs)
  show ?thesis
    using drawWinner_failed_transfer_atomic [OF sample_record_refusing disjI2, OF refused]
      sample_record_refusing paid
    by simp
qed

subsection \<open>C2: when a draw succeeds\<close>







subsection \<open>C3: the split of the pool\<close>

lemma pool_covered:
  fixes pool p bal :: uint256
  assumes "p \<le> pool" "p \<le> bal" "pool - p \<le> bal - p"
  shows "pool \<le> bal" "bal - p - (pool - p) = bal - pool"
    "unat (bal - pool) = unat bal - unat pool"
  using assms by unat_arith+

text \<open>
  Claim C3. Let \<open>pool\<close> be the prize pool at the time of a successful draw, \<open>p\<close> the
  amount \<open>pool * 80 div 100\<close> (as natural numbers, so the floor of 80 percent) and \<open>f\<close>
  the amount \<open>pool\<close> minus \<open>p\<close>; the two add up to \<open>pool\<close>. The draw transfers
  \<open>p\<close> to the winner, from the world in which the winner is recorded, and then \<open>f\<close>
  to the owner; after each transfer the code of its recipient runs, and the balances at
  the end of the draw are those it leaves after the second transfer. When neither
  recipient makes a call back into the lottery, the balances at the end are the balances
  at the start with \<open>p\<close> moved from the contract to the winner and \<open>f\<close> moved from the
  contract to the owner, and these two transfers are the only ones of the draw: for a
  winner and an owner that are not the contract, the contract held the pool and holds
  \<open>pool\<close> less; a winner who is not the owner holds \<open>p\<close> more and the owner \<open>f\<close>
  more; an owner who wins holds \<open>pool\<close> more.
\<close>

theorem drawWinner_split:
  assumes "drawWinner (recipient_code h n) h e w = Inr (a, w')"
  shows "\<exists>p f w2 w3.
           unat p = unat (prizePool w) * 80 div 100
         \<and> unat f = unat (prizePool w) - unat p
         \<and> unat p + unat f = unat (prizePool w)
         \<and> drawWinner_record h e w = Inr (a, p, f, w2)
         \<and> p \<le> balances w2 (this h)
         \<and> w3 = recipient_code h n e a p (pay h a p w2)
         \<and> f \<le> balances w3 (this h)
         \<and> balances w' = balances (recipient_code h n e (owner w) f (pay h (owner w) f w3))
         \<and> (silent h a \<and> silent h (owner w) \<longrightarrow>
               balances w' = move (move (balances w) (this h) a p) (this h) (owner w) f
             \<and> trace w' = trace w @ [Sent a p, Sent (owner w) f,
                             Emitted (WinnerDrawn a p 0 (roundNumber w)),
                             Emitted (LotteryReset (roundNumber w + 1))]
             \<and> (a \<noteq> this h \<and> owner w \<noteq> this h \<longrightarrow>
                   prizePool w \<le> balances w (this h)
                 \<and> balances w' (this h) = balances w (this h) - prizePool w
                 \<and> unat (balances w' (this h)) = unat (balances w (this h)) - unat (prizePool w))
             \<and> (a \<noteq> this h \<and> owner w \<noteq> this h \<and> a \<noteq> owner w \<longrightarrow>
                   balances w' a = balances w a + p
                 \<and> balances w' (owner w) = balances w (owner w) + f)
             \<and> (a \<noteq> this h \<and> a = owner w \<longrightarrow>
                   balances w' a = balances w a + prizePool w))"
proof -
  define p where "p = prizePool w * 80 div 100"
  define f where "f = prizePool w - p"
  define w2 where "w2 = w\<lparr>winners := winners w @ [\<lparr>winner = a, prize = p, winningNumber = 0,
                                               timestamp = block_timestamp e\<rparr>],
                    hasWon := (hasWon w)(a := True)\<rparr>"
  define w3 where "w3 = recipient_code h n e a p (pay h a p w2)"
  define w4 where "w4 = recipient_code h n e (owner w3) f (pay h (owner w3) f w3)"
  note d = drawWinner_Inr [OF assms, folded p_def, folded f_def w2_def, folded w3_def,
      folded w4_def]
  note r = drawWinner_record_Inr [OF d(1)]
  have p: "unat p = unat (prizePool w) * 80 div 100"
    unfolding p_def using r(5) by (rule prize_exact)
  have le: "p \<le> prizePool w"
    using r(9) .
  have f: "unat f = unat (prizePool w) - unat p"
    unfolding f_def using le by (simp add: unat_sub)
  have sum: "unat p + unat f = unat (prizePool w)"
    using f le by (simp add: word_le_nat_alt)
  have own3: "owner w3 = owner w"
    by (simp add: w3_def recipient_code_owner pay_def w2_def)
  have bal': "balances w' = balances (recipient_code h n e (owner w) f (pay h (owner w) f w3))"
    unfolding d(7) w4_def own3 by simp
  have held2: "p \<le> balances w2 (this h)"
    using d(2) by (simp add: w2_def)
  have quiet: "balances w' = move (move (balances w) (this h) a p) (this h) (owner w) f
             \<and> trace w' = trace w @ [Sent a p, Sent (owner w) f,
                             Emitted (WinnerDrawn a p 0 (roundNumber w)),
                             Emitted (LotteryReset (roundNumber w + 1))]
             \<and> (a \<noteq> this h \<and> owner w \<noteq> this h \<longrightarrow>
                   prizePool w \<le> balances w (this h)
                 \<and> balances w' (this h) = balances w (this h) - prizePool w
                 \<and> unat (balances w' (this h)) = unat (balances w (this h)) - unat (prizePool w))
             \<and> (a \<noteq> this h \<and> owner w \<noteq> this h \<and> a \<noteq> owner w \<longrightarrow>
                   balances w' a = balances w a + p
                 \<and> balances w' (owner w) = balances w (owner w) + f)
             \<and> (a \<noteq> this h \<and> a = owner w \<longrightarrow>
                   balances w' a = balances w a + prizePool w)"
    if s: "silent h a" "silent h (owner w)"
  proof -
    note q = drawWinner_Inr_silent [OF assms s, folded p_def, folded f_def]
    have b: "balances w' = move (move (balances w) (this h) a p) (this h) (owner w) f"
      and t: "trace w' = trace w @ [Sent a p, Sent (owner w) f,
                             Emitted (WinnerDrawn a p 0 (roundNumber w)),
                             Emitted (LotteryReset (roundNumber w + 1))]"
      unfolding q(2) by simp_all
    have contract: "prizePool w \<le> balances w (this h)
                 \<and> balances w' (this h) = balances w (this h) - prizePool w
                 \<and> unat (balances w' (this h)) = unat (balances w (this h)) - unat (prizePool w)"
      if ne: "a \<noteq> this h" "owner w \<noteq> this h"
    proof -
      have left: "f \<le> balances w (this h) - p"
        using q(3) ne(1) by (simp add: move_def)
      note c = pool_covered [OF le d(2) left [unfolded f_def]]
      have "balances w' (this h) = balances w (this h) - p - f"
        unfolding b using ne by (simp add: move_def)
      then have "balances w' (this h) = balances w (this h) - prizePool w"
        using c(2) by (simp add: f_def)
      then show ?thesis
        using c(1,3) by simp
    qed
    have others: "balances w' a = balances w a + p
                 \<and> balances w' (owner w) = balances w (owner w) + f"
      if "a \<noteq> this h" "owner w \<noteq> this h" "a \<noteq> owner w"
      unfolding b using that by (simp add: move_def)
    have both: "balances w' a = balances w a + prizePool w" if "a \<noteq> this h" "a = owner w"
    proof -
      have "balances w' a = balances w a + p + f"
        unfolding b using that by (simp add: move_def)
      then show ?thesis
        by (simp add: f_def)
    qed
    show ?thesis
      using b t contract others both by blast
  qed
  show ?thesis
    using p f sum d(1) held2 d(4) bal' quiet w3_def
    by (intro exI [of _ p] exI [of _ f] exI [of _ w2] exI [of _ w3]) blast
qed

theorem drawWinner_split_witness:
  "\<exists>w'. drawWinner (recipient_code sample_host (Suc 0)) sample_host (sample_env deployer 0)
          round1_world = Inr (alice, w')
     \<and> silent sample_host alice \<and> silent sample_host (owner round1_world)
     \<and> alice \<noteq> this sample_host \<and> owner round1_world \<noteq> this sample_host
     \<and> alice \<noteq> owner round1_world
     \<and> unat (prizePool round1_world) = 3000000000000000
     \<and> balances round1_world (this sample_host) = 3000000000000000
     \<and> balances w' (this sample_host) = 0
     \<and> balances round1_world alice = 5000000000000000
     \<and> balances w' alice = 7400000000000000
     \<and> balances round1_world (owner round1_world) = 5000000000000000
     \<and> balances w' (owner round1_world) = 5600000000000000"
proof -
  obtain w' where w': "drawWinner (recipient_code sample_host (Suc 0)) sample_host
      (sample_env deployer 0) round1_world = Inr (alice, w')"
    using sample_draw by blast
  have facts: "alice \<noteq> this sample_host" "owner round1_world \<noteq> this sample_host"
    "alice \<noteq> owner round1_world" "unat (prizePool round1_world) = 3000000000000000"
    "balances round1_world (this sample_host) = 3000000000000000"
    "balances round1_world alice = 5000000000000000"
    "balances round1_world (owner round1_world) = 5000000000000000"
    "prizePool round1_world = 3000000000000000"
    by (simp_all add: sample_defs)
  obtain p f where pf: "unat p = unat (prizePool round1_world) * 80 div 100"
      "unat f = unat (prizePool round1_world) - unat p"
    and b: "balances w' (this sample_host)
              = balances round1_world (this sample_host) - prizePool round1_world"
      "balances w' alice = balances round1_world alice + p"
      "balances w' (owner round1_world) = balances round1_world (owner round1_world) + f"
    using drawWinner_split [OF w'] sample_silent(1) facts(1-3) by blast
  have "unat p = 2400000000000000" "unat f = 600000000000000"
    using pf by (simp_all add: facts(4))
  then have "p = 2400000000000000" "f = 600000000000000"
    by (simp_all add: word_unat_eq_iff)
  then show ?thesis
    using w' b facts sample_silent(1)
    by (intro exI [of _ w']) (simp del: recipient_code.simps)
qed

subsection \<open>C4: the reset after a draw\<close>




subsection \<open>C5: the effects of an entry\<close>

text \<open>
  Claim C5. A transaction calling \<^verbatim>\<open>enterLottery\<close> that succeeds was made while
  the lottery was active with a payment of at least the fee. It appends exactly one entry
  (the caller, the handle the FHE library returned, the block's time), raises the
  caller's entry count by exactly 1 and no other count, and raises the prize pool by the
  whole payment. The whole payment has moved from the caller to the contract, and the
  call makes no transfer (its only action is the event), so nothing is refunded. The
  function pays nobody, so this does not depend on what recipients do (\<open>r\<close>).
\<close>

theorem enterLottery_effects:
  assumes "transact r h (EnterLottery x pr) e w = (None, w')"
  shows "isActive w \<and> entryFee w \<le> msg_value e
       \<and> (\<exists>enc. FHE_fromExternal h (msg_sender e) x pr = Some enc
             \<and> entries w' = entries w @ [\<lparr>participant = msg_sender e, encryptedNumber = enc,
                                           LotteryEntry.timestamp = block_timestamp e\<rparr>])
       \<and> length (entries w') = length (entries w) + 1
       \<and> unat (participantEntries w' (msg_sender e)) = unat (participantEntries w (msg_sender e)) + 1
       \<and> (\<forall>a. a \<noteq> msg_sender e \<longrightarrow> participantEntries w' a = participantEntries w a)
       \<and> unat (prizePool w') = unat (prizePool w) + unat (msg_value e)
       \<and> balances w' = move (balances w) (msg_sender e) (this h) (msg_value e)
       \<and> (msg_sender e \<noteq> this h \<longrightarrow> balances w' (this h) = balances w (this h) + msg_value e)
       \<and> trace w' = trace w @ [Emitted (LotteryEntered (msg_sender e) (block_timestamp e)
                                   (roundNumber w))]"
proof -
  let ?w0 = "w\<lparr>balances := move (balances w) (msg_sender e) (this h) (msg_value e)\<rparr>"
  have ex: "execute r h (EnterLottery x pr) e w = Inr w'"
    using assms by (auto simp: transact_def split: sum.splits)
  then have en: "enterLottery h x pr e ?w0 = Inr w'"
    by (simp add: execute_EnterLottery split: if_splits)
  note r = enterLottery_Inr [OF en]
  obtain enc where enc: "FHE_fromExternal h (msg_sender e) x pr = Some enc"
    and w': "w' = ?w0\<lparr>entries := entries ?w0 @ [\<lparr>participant = msg_sender e, encryptedNumber = enc,
                                        LotteryEntry.timestamp = block_timestamp e\<rparr>],
              participantEntries := (participantEntries ?w0)
                 (msg_sender e := participantEntries ?w0 (msg_sender e) + 1),
              prizePool := prizePool ?w0 + msg_value e,
              trace := trace ?w0 @ [Emitted (LotteryEntered (msg_sender e) (block_timestamp e)
                                   (roundNumber ?w0))]\<rparr>"
    using r(5) by blast
  have cnt: "unat (participantEntries w (msg_sender e) + 1) = unat (participantEntries w (msg_sender e)) + 1"
    using r(3) by (intro word_inc_exact) simp
  have pool: "unat (prizePool w + msg_value e) = unat (prizePool w) + unat (msg_value e)"
    using r(4) by (intro uint256_add_exact) simp
  show ?thesis
    using r(1,2) enc cnt pool unfolding w' by (simp add: move_dst)
qed

theorem enterLottery_effects_witness:
  "\<exists>w'. transact (recipient_code sample_host (Suc 0)) sample_host (EnterLottery 75 [])
          (sample_env bob 2000000000000000) fresh_world = (None, w')
     \<and> entryFee fresh_world = 1000000000000000
     \<and> length (entries w') = length (entries fresh_world) + 1
     \<and> unat (participantEntries w' bob) = unat (participantEntries fresh_world bob) + 1
     \<and> unat (prizePool w') = unat (prizePool fresh_world) + 2000000000000000
     \<and> balances w' (this sample_host) = balances fresh_world (this sample_host) + 2000000000000000"
proof -
  have ok: "\<exists>w'. transact (recipient_code sample_host (Suc 0)) sample_host (EnterLottery 75 [])
              (sample_env bob 2000000000000000) fresh_world = (None, w')"
    by (simp add: transact_def execute_EnterLottery enterLottery_def emit_def uint256_max_def
          fresh_world_def constructor_def sample_defs)
  then obtain w' where w': "transact (recipient_code sample_host (Suc 0)) sample_host
      (EnterLottery 75 []) (sample_env bob 2000000000000000) fresh_world = (None, w')"
    by blast
  have v: "msg_value (sample_env bob 2000000000000000) = 2000000000000000"
      "msg_sender (sample_env bob 2000000000000000) = bob" "bob \<noteq> this sample_host"
      "entryFee fresh_world = 1000000000000000"
    by (simp_all add: fresh_world_def constructor_def sample_defs)
  show ?thesis
    using enterLottery_effects [OF w'] w' unfolding v by (intro exI [of _ w']) (simp add: v(3) move_def sample_defs del: recipient_code.simps)
qed

subsection \<open>C6: a failing call changes nothing\<close>

text \<open>
  Claim C6. A call that fails leaves the world as it was: storage, balances and trace.
  And each of these calls fails: an entry with a payment below the fee, an entry while
  the lottery is inactive, a draw with no entries, and a call of \<^verbatim>\<open>drawWinner\<close>,
  \<^verbatim>\<open>setLotteryActive\<close>, \<^verbatim>\<open>setEntryFee\<close> or \<^verbatim>\<open>emergencyWithdraw\<close> by anyone
  but the owner. (\<open>rejected\<close> says both: the call failed and the world is unchanged.)
  This holds whatever the recipients of transfers do (\<open>r\<close>).
\<close>

theorem failed_calls_change_nothing:
  "(fst (transact r h c e w) \<noteq> None \<longrightarrow> snd (transact r h c e w) = w)
   \<and> (msg_value e < entryFee w \<longrightarrow> rejected r h (EnterLottery x pr) e w)
   \<and> (\<not> isActive w \<longrightarrow> rejected r h (EnterLottery x pr) e w)
   \<and> (entries w = [] \<longrightarrow> rejected r h DrawWinner e w)
   \<and> (msg_sender e \<noteq> owner w \<longrightarrow>
        rejected r h DrawWinner e w \<and> rejected r h (SetLotteryActive b) e w
        \<and> rejected r h (SetEntryFee f) e w \<and> rejected r h EmergencyWithdraw e w)"
proof -
  have rej: "rejected r h c' e w" if "\<exists>err. execute r h c' e w = Inl err" for c'
    using that by (auto simp: rejected_def transact_def)
  have fee: "rejected r h (EnterLottery x pr) e w" if "msg_value e < entryFee w"
    using that by (intro rej) (simp add: execute_EnterLottery enterLottery_def not_le)
  have off: "rejected r h (EnterLottery x pr) e w" if "\<not> isActive w"
    using that by (intro rej) (simp add: execute_EnterLottery enterLottery_def)
  have none: "rejected r h DrawWinner e w" if "entries w = []"
    using that
    by (intro rej) (simp add: execute_DrawWinner drawWinner_def drawWinner_record_def entries_length_def)
  have other: "rejected r h DrawWinner e w \<and> rejected r h (SetLotteryActive b) e w
        \<and> rejected r h (SetEntryFee f) e w \<and> rejected r h EmergencyWithdraw e w"
    if "msg_sender e \<noteq> owner w"
    using that
    by (intro conjI rej)
      (simp_all add: execute_DrawWinner drawWinner_def drawWinner_record_def
         execute_SetLotteryActive setLotteryActive_def execute_SetEntryFee setEntryFee_def
         execute_EmergencyWithdraw emergencyWithdraw_def)
  show ?thesis
    using fee off none other transact_failed [of r h c e w] by blast
qed

theorem failed_calls_change_nothing_witness:
  "fst (transact (recipient_code sample_host (Suc 0)) sample_host (SetEntryFee 5) (sample_env alice 0) (fresh_world\<lparr>isActive := False\<rparr>)) \<noteq> None
   \<and> msg_value (sample_env alice 0) < entryFee (fresh_world\<lparr>isActive := False\<rparr>)
   \<and> \<not> isActive (fresh_world\<lparr>isActive := False\<rparr>)
   \<and> entries (fresh_world\<lparr>isActive := False\<rparr>) = []
   \<and> msg_sender (sample_env alice 0) \<noteq> owner (fresh_world\<lparr>isActive := False\<rparr>)
   \<and> snd (transact (recipient_code sample_host (Suc 0)) sample_host (SetEntryFee 5) (sample_env alice 0) (fresh_world\<lparr>isActive := False\<rparr>))
        = fresh_world\<lparr>isActive := False\<rparr>
   \<and> rejected (recipient_code sample_host (Suc 0)) sample_host (EnterLottery 50 []) (sample_env alice 0) (fresh_world\<lparr>isActive := False\<rparr>)
   \<and> rejected (recipient_code sample_host (Suc 0)) sample_host DrawWinner (sample_env alice 0) (fresh_world\<lparr>isActive := False\<rparr>)
   \<and> rejected (recipient_code sample_host (Suc 0)) sample_host (SetLotteryActive True) (sample_env alice 0) (fresh_world\<lparr>isActive := False\<rparr>)
   \<and> rejected (recipient_code sample_host (Suc 0)) sample_host (SetEntryFee 5) (sample_env alice 0) (fresh_world\<lparr>isActive := False\<rparr>)
   \<and> rejected (recipient_code sample_host (Suc 0)) sample_host EmergencyWithdraw (sample_env alice 0) (fresh_world\<lparr>isActive := False\<rparr>)"
proof -
  let ?w = "fresh_world\<lparr>isActive := False\<rparr>"
  have hyps: "fst (transact (recipient_code sample_host (Suc 0)) sample_host (SetEntryFee 5) (sample_env alice 0) ?w) \<noteq> None"
    "msg_value (sample_env alice 0) < entryFee ?w" "\<not> isActive ?w" "entries ?w = []"
    "msg_sender (sample_env alice 0) \<noteq> owner ?w"
    by (simp_all add: transact_def execute_SetEntryFee setEntryFee_def fresh_world_def
          constructor_def sample_defs)
  show ?thesis
    using hyps failed_calls_change_nothing [where r = "recipient_code sample_host (Suc 0)" and h = sample_host and c = "SetEntryFee 5"
        and e = "sample_env alice 0" and w = ?w and x = 50 and pr = "[]" and b = True and f = 5]
    by (simp del: recipient_code.simps)
qed

subsection \<open>C7: entry counts never go down\<close>

text \<open>
  Claim C7. For every address, the entry count (\<^verbatim>\<open>participantEntries\<close>) after any
  sequence of transactions, from any world (the one the constructor builds included)
  and at every depth \<open>n\<close> of re-entry, is at least what it was before. A successful
  draw, reset included, lowers no entry count; it leaves every entry count as it was
  when neither the winner nor the owner makes a call back into the lottery while being
  paid (a recipient that enters the lottery while being paid raises its own count).
\<close>

theorem participantEntries_monotone:
  "participantEntries w a \<le> participantEntries (run (recipient_code h n) h cs w) a
   \<and> participantEntries (constructor e0 bal) a
       \<le> participantEntries (run (recipient_code h n) h cs (constructor e0 bal)) a
   \<and> (drawWinner (recipient_code h n) h e w = Inr (b, w') \<longrightarrow>
         participantEntries w a \<le> participantEntries w' a
       \<and> (silent h b \<and> silent h (owner w) \<longrightarrow> participantEntries w' = participantEntries w))"
proof -
  have mono: "participantEntries v a \<le> participantEntries (run (recipient_code h n) h cs v) a" for v
    using run_evolves [of "recipient_code h n" v h cs, OF recipient_code_evolves]
    by (simp add: evolves_def)
  have draw: "participantEntries w a \<le> participantEntries w' a"
    if "drawWinner (recipient_code h n) h e w = Inr (b, w')"
    using drawWinner_evolves [of "recipient_code h n", OF recipient_code_evolves that]
    by (simp add: evolves_def)
  have quiet: "participantEntries w' = participantEntries w"
    if "drawWinner (recipient_code h n) h e w = Inr (b, w')" "silent h b" "silent h (owner w)"
    unfolding drawWinner_Inr_silent(2) [OF that] by simp
  show ?thesis
    using mono draw quiet by blast
qed

theorem participantEntries_monotone_witness:
  "\<exists>w'. drawWinner (recipient_code sample_host (Suc 0)) sample_host (sample_env deployer 0)
          round1_world = Inr (alice, w')
     \<and> silent sample_host alice \<and> silent sample_host (owner round1_world)
     \<and> participantEntries round1_world alice \<le> participantEntries w' alice
     \<and> participantEntries w' = participantEntries round1_world
     \<and> participantEntries w' alice = 1"
proof -
  obtain w' where w': "drawWinner (recipient_code sample_host (Suc 0)) sample_host
      (sample_env deployer 0) round1_world = Inr (alice, w')"
    using sample_draw by blast
  have eq: "participantEntries round1_world alice \<le> participantEntries w' alice
     \<and> participantEntries w' = participantEntries round1_world"
    using participantEntries_monotone [where w = round1_world and a = alice and h = sample_host
        and n = "Suc 0" and cs = "[]" and ?e0.0 = "sample_env deployer 0" and bal = "\<lambda>_. 0"
        and e = "sample_env deployer 0" and b = alice and w' = w'] w' sample_silent(1)
    by blast
  have "participantEntries round1_world alice = 1"
    by (simp add: sample_defs)
  then show ?thesis
    using w' eq sample_silent(1) by (intro exI [of _ w']) (simp del: recipient_code.simps)
qed

subsection \<open>C8: changing the fee emits nothing\<close>

text \<open>
  Claim C8 says that a successful \<^verbatim>\<open>setEntryFee\<close> emits a status-change event as
  \<^verbatim>\<open>setLotteryActive\<close> does. It does not: the owner sets the fee of the sample world
  to 5, the call succeeds and the fee is 5, and the trace after the call is the trace
  before it, which is empty. The contract declares no event for a change of fee.
\<close>

theorem setEntryFee_event_counterexample:
  "fst (transact (recipient_code sample_host (Suc 0)) sample_host (SetEntryFee 5)
          (sample_env deployer 0) round1_world) = None
   \<and> entryFee (snd (transact (recipient_code sample_host (Suc 0)) sample_host (SetEntryFee 5)
          (sample_env deployer 0) round1_world)) = 5
   \<and> trace round1_world = []
   \<and> trace (snd (transact (recipient_code sample_host (Suc 0)) sample_host (SetEntryFee 5)
          (sample_env deployer 0) round1_world)) = []"
  by (simp add: transact_def execute_SetEntryFee setEntryFee_def sample_defs)

text \<open>
  Claim C8 as amended. A successful \<^verbatim>\<open>setEntryFee\<close> changes the fee and nothing else:
  it emits no event. The new fee is the one later entries are checked against: while the
  lottery is active, an entry is refused for its fee exactly when it pays less than the
  new fee. Only \<^verbatim>\<open>setLotteryActive\<close> emits the status-change event, carrying the
  new status.
\<close>

theorem setEntryFee_silent:
  "(setEntryFee newFee e w = Inr w1 \<longrightarrow>
      w1 = w\<lparr>entryFee := newFee\<rparr> \<and> getEntryFee w1 = newFee \<and> trace w1 = trace w
      \<and> (isActive w1 \<longrightarrow>
            (enterLottery h x pr e' w1 = Inl (Revert ''Insufficient entry fee'')
               \<longleftrightarrow> msg_value e' < newFee)))
   \<and> (setLotteryActive active e w = Inr w2 \<longrightarrow>
      w2 = w\<lparr>isActive := active, trace := trace w @ [Emitted (LotteryStatusChanged active)]\<rparr>)"
proof -
  have "w1 = w\<lparr>entryFee := newFee\<rparr>" if "setEntryFee newFee e w = Inr w1"
    using that by (rule setEntryFee_Inr(2))
  moreover have "enterLottery h x pr e' (w\<lparr>entryFee := newFee\<rparr>) = Inl (Revert ''Insufficient entry fee'')
      \<longleftrightarrow> msg_value e' < newFee"
    if "isActive w"
    using that by (simp add: enterLottery_def Let_def not_le split: option.splits)
  moreover have "w2 = w\<lparr>isActive := active, trace := trace w @ [Emitted (LotteryStatusChanged active)]\<rparr>"
    if "setLotteryActive active e w = Inr w2"
    using that by (rule setLotteryActive_Inr(2))
  ultimately show ?thesis
    by (auto simp: getEntryFee_def)
qed

theorem setEntryFee_silent_witness:
  "setEntryFee 5 (sample_env deployer 0) round1_world = Inr (round1_world\<lparr>entryFee := 5\<rparr>)
   \<and> trace (round1_world\<lparr>entryFee := 5\<rparr>) = trace round1_world
   \<and> isActive (round1_world\<lparr>entryFee := 5\<rparr>)
   \<and> msg_value (sample_env alice 4) < 5
   \<and> enterLottery sample_host 50 [] (sample_env alice 4) (round1_world\<lparr>entryFee := 5\<rparr>)
        = Inl (Revert ''Insufficient entry fee'')
   \<and> setLotteryActive False (sample_env deployer 0) round1_world
        = Inr (round1_world\<lparr>isActive := False, trace := [Emitted (LotteryStatusChanged False)]\<rparr>)"
proof -
  have hyps: "setEntryFee 5 (sample_env deployer 0) round1_world = Inr (round1_world\<lparr>entryFee := 5\<rparr>)"
    "isActive (round1_world\<lparr>entryFee := 5\<rparr>)" "msg_value (sample_env alice 4) < 5"
    "setLotteryActive False (sample_env deployer 0) round1_world
        = Inr (round1_world\<lparr>isActive := False, trace := [Emitted (LotteryStatusChanged False)]\<rparr>)"
    by (simp_all add: setEntryFee_def setLotteryActive_def emit_def sample_defs)
  show ?thesis
    using hyps setEntryFee_silent [where newFee = 5 and e = "sample_env deployer 0"
        and w = round1_world and ?w1.0 = "round1_world\<lparr>entryFee := 5\<rparr>"
        and e' = "sample_env alice 4" and h = sample_host and x = 50 and pr = "[]"
        and active = False
        and ?w2.0 = "round1_world\<lparr>isActive := False, trace := [Emitted (LotteryStatusChanged False)]\<rparr>"]
    by simp
qed

subsection \<open>C9: the history of winners\<close>






subsection \<open>C10: the emergency withdrawal\<close>



end
